theory Spec2Isabelle
  imports Main "HOL-Library.Multiset"
begin

section \<open>The code pool manager of assets/js/code-manager.js\<close>

text \<open>
  The class \<open>CodeManager\<close> keeps an array of code records and three configuration
  numbers. Every method is synchronous; the model gives each method one reading
  \<open>now\<close> of \<open>Date.now()\<close>, taken as not advancing while the method runs.
  Timestamps and counters are JavaScript numbers holding integers; they are modelled
  as \<open>int\<close>. \<open>savePreGeneratedCodes\<close> only writes a copy of the array to
  \<open>localStorage\<close>, which none of the methods below reads back; it is left out.
\<close>

subsection \<open>Data\<close>

record code_record =
  code :: string
  generated :: int
  expires :: int
  status :: string
  uses :: int
  lastUsed :: "int option"

record manager =
  preGeneratedCodes :: "code_record list"
  rotationInterval :: int
  maxCodes :: nat
  minActiveCodes :: nat

text \<open>The constructor, before \<open>init()\<close> runs.\<close>

definition constructor :: manager where
  "constructor =
     \<lparr>preGeneratedCodes = [], rotationInterval = 3600000, maxCodes = 20, minActiveCodes = 5\<rparr>"


subsection \<open>Random five-digit codes\<close>

text \<open>
  \<open>Number.prototype.toString()\<close> on a non-negative integer: its decimal digits.
\<close>

definition digit :: "nat \<Rightarrow> char" where
  "digit d = ''0123456789'' ! d"

function toString :: "nat \<Rightarrow> string" where
  "toString n = (if n < 10 then [digit n] else toString (n div 10) @ [digit (n mod 10)])"
  by pat_completeness auto
termination
  by (relation "measure (\<lambda>n. n)") auto

declare toString.simps [simp del]

text \<open>
  \<open>Math.random()\<close> is an input of the program: a sequence \<open>rnd\<close> of draws and the
  number \<open>pos\<close> of draws already consumed. Draw \<open>k\<close> stands for the integer
  \<open>Math.floor(Math.random() * 90000)\<close> of the \<open>k\<close>-th call; it is reduced modulo
  90000, so that every sequence is a legal one. \<open>draw\<close> is the integer
  \<open>Math.floor(10000 + Math.random() * 90000)\<close>, which lies in 10000..99999.
\<close>

type_synonym random = "nat \<Rightarrow> nat"

definition draw :: "random \<Rightarrow> nat \<Rightarrow> nat" where
  "draw rnd pos = 10000 + rnd pos mod 90000"

definition maxAttempts :: nat where
  "maxAttempts = 100"

text \<open>
  The \<open>do ... while\<close> loop of \<open>generateUniqueCode\<close>: a draw, then another one as
  long as the code is held by some record of the pool and fewer than 100 attempts
  were made. It returns the last code drawn and the new position in the draws.
\<close>

function generateUniqueCode_loop ::
  "code_record list \<Rightarrow> random \<Rightarrow> nat \<Rightarrow> nat \<Rightarrow> string \<times> nat" where
  "generateUniqueCode_loop pool rnd pos attempts =
     (if list_ex (\<lambda>c. code c = toString (draw rnd pos)) pool \<and> Suc attempts < maxAttempts
      then generateUniqueCode_loop pool rnd (Suc pos) (Suc attempts)
      else (toString (draw rnd pos), Suc pos))"
  by pat_completeness auto
termination
  by (relation "measure (\<lambda>(pool, rnd, pos, attempts). maxAttempts - attempts)") auto

declare generateUniqueCode_loop.simps [simp del]

definition generateUniqueCode :: "manager \<Rightarrow> random \<Rightarrow> nat \<Rightarrow> string \<times> nat" where
  "generateUniqueCode s rnd pos = generateUniqueCode_loop (preGeneratedCodes s) rnd pos 0"

subsection \<open>Trimming and generating\<close>

text \<open>
  \<open>Array.prototype.sort\<close> is stable, as \<open>sort_key\<close> is; the comparator
  \<open>(a, b) => b.expires - a.expires\<close> sorts by descending expiry.
\<close>

definition trimCodeList :: "manager \<Rightarrow> manager" where
  "trimCodeList s =
     (if length (preGeneratedCodes s) > maxCodes s
      then s\<lparr>preGeneratedCodes :=
               take (maxCodes s) (sort_key (\<lambda>c. - expires c) (preGeneratedCodes s))\<rparr>
      else s)"

definition newCode :: "manager \<Rightarrow> int \<Rightarrow> nat \<Rightarrow> string \<Rightarrow> code_record" where
  "newCode s now i c =
     \<lparr>code = c, generated = now + int i * 60000,
      expires = now + rotationInterval s + int i * 60000,
      status = ''active'', uses = 0, lastUsed = None\<rparr>"

text \<open>
  The \<open>for\<close> loop of \<open>generateNewCodes\<close>; the pool is not changed while it runs,
  so every code of the batch is checked against the pool as it was before the call.
\<close>

function generateNewCodes_loop ::
  "manager \<Rightarrow> int \<Rightarrow> random \<Rightarrow> nat \<Rightarrow> nat \<Rightarrow> nat \<Rightarrow> code_record list
     \<Rightarrow> code_record list \<times> nat" where
  "generateNewCodes_loop s now rnd pos i cnt newCodes =
     (if i < cnt
      then generateNewCodes_loop s now rnd (snd (generateUniqueCode s rnd pos)) (Suc i) cnt
             (newCodes @ [newCode s now i (fst (generateUniqueCode s rnd pos))])
      else (newCodes, pos))"
  by pat_completeness auto
termination
  by (relation "measure (\<lambda>(s, now, rnd, pos, i, cnt, newCodes). cnt - i)") auto

declare generateNewCodes_loop.simps [simp del]

text \<open>Returns the new records, the manager and the position in the draws.\<close>

definition generateNewCodes ::
  "nat \<Rightarrow> int \<Rightarrow> manager \<Rightarrow> random \<Rightarrow> nat \<Rightarrow> code_record list \<times> manager \<times> nat" where
  "generateNewCodes cnt now s rnd pos =
     (let res = generateNewCodes_loop s now rnd pos 0 cnt [];
          newCodes = fst res;
          s1 = s\<lparr>preGeneratedCodes := preGeneratedCodes s @ newCodes\<rparr>
      in (newCodes, trimCodeList s1, snd res))"

subsection \<open>Active codes, the next code\<close>

definition isActive :: "int \<Rightarrow> code_record \<Rightarrow> bool" where
  "isActive now c = (expires c > now \<and> status c = ''active'')"

definition getActiveCodes :: "int \<Rightarrow> manager \<Rightarrow> code_record list" where
  "getActiveCodes now s =
     sort_key (\<lambda>c. - generated c) (filter (isActive now) (preGeneratedCodes s))"

text \<open>
  The array returned by \<open>getActiveCodes\<close> holds references to the objects of the
  pool, and \<open>getNextCode\<close> mutates one of them. \<open>getActiveRefs\<close> is the same array
  with, beside each record, its index in the pool.
\<close>

definition getActiveRefs :: "int \<Rightarrow> manager \<Rightarrow> (nat \<times> code_record) list" where
  "getActiveRefs now s =
     sort_key (\<lambda>p. - generated (snd p))
       (filter (\<lambda>p. isActive now (snd p)) (enumerate 0 (preGeneratedCodes s)))"

definition generateEmergencyCode ::
  "int \<Rightarrow> manager \<Rightarrow> random \<Rightarrow> nat \<Rightarrow> code_record \<times> manager \<times> nat" where
  "generateEmergencyCode now s rnd pos =
     (let emergencyCode =
            \<lparr>code = fst (generateUniqueCode s rnd pos), generated = now,
             expires = now + 3600000, status = ''emergency'', uses = 1, lastUsed = None\<rparr>
      in (emergencyCode,
          s\<lparr>preGeneratedCodes := preGeneratedCodes s @ [emergencyCode]\<rparr>,
          snd (generateUniqueCode s rnd pos)))"

text \<open>
  \<open>getNextCode\<close> returns the record handed out, the manager and the position in
  the draws. \<open>sortedCodes[0]\<close> of an empty array would be \<open>undefined\<close>, and
  \<open>selectedCode.uses++\<close> would then throw a TypeError: the value \<open>None\<close>.
\<close>

definition getNextCode ::
  "int \<Rightarrow> manager \<Rightarrow> random \<Rightarrow> nat \<Rightarrow> (code_record \<times> manager \<times> nat) option" where
  "getNextCode now s rnd pos =
     (let activeCodes = getActiveRefs now s
      in if length activeCodes = 0
         then Some (generateEmergencyCode now s rnd pos)
         else (case sort_key (\<lambda>p. uses (snd p)) activeCodes of
                 [] \<Rightarrow> None
               | p # _ \<Rightarrow>
                   (let selectedCode = (snd p)\<lparr>uses := uses (snd p) + 1\<rparr>
                    in Some (selectedCode,
                             s\<lparr>preGeneratedCodes := (preGeneratedCodes s)[fst p := selectedCode]\<rparr>,
                             pos))))"

subsection \<open>Using and validating a code\<close>

text \<open>The index of the record \<open>Array.prototype.find\<close> returns: the first match.\<close>

fun findIndex :: "('a \<Rightarrow> bool) \<Rightarrow> 'a list \<Rightarrow> nat option" where
  "findIndex P [] = None"
| "findIndex P (x # xs) = (if P x then Some 0 else map_option Suc (findIndex P xs))"

definition markCodeAsUsed :: "string \<Rightarrow> int \<Rightarrow> manager \<Rightarrow> manager" where
  "markCodeAsUsed codeString now s =
     (case findIndex (\<lambda>c. code c = codeString) (preGeneratedCodes s) of
        None \<Rightarrow> s
      | Some i \<Rightarrow>
          s\<lparr>preGeneratedCodes :=
              (preGeneratedCodes s)
                [i := (preGeneratedCodes s ! i)
                        \<lparr>uses := uses (preGeneratedCodes s ! i) + 1, lastUsed := Some now\<rparr>]\<rparr>)"

datatype failure = NotFound | Expired | Inactive

fun reason :: "failure \<Rightarrow> string" where
  "reason NotFound = ''Code not found''"
| "reason Expired = ''Code expired''"
| "reason Inactive = ''Code inactive''"

record validated =
  vcode :: code_record
  timeLeft :: int
  vuses :: int

text \<open>\<open>Inl f\<close> is the result \<open>{valid: false, reason: reason f}\<close>, \<open>Inr v\<close> the valid one.\<close>

definition validateCode :: "string \<Rightarrow> int \<Rightarrow> manager \<Rightarrow> failure + validated" where
  "validateCode codeString now s =
     (case find (\<lambda>c. code c = codeString) (preGeneratedCodes s) of
        None \<Rightarrow> Inl NotFound
      | Some c \<Rightarrow>
          if expires c < now then Inl Expired
          else if status c \<noteq> ''active'' \<and> status c \<noteq> ''emergency'' then Inl Inactive
          else Inr \<lparr>vcode = c, timeLeft = expires c - now, vuses = uses c\<rparr>)"

subsection \<open>Cleaning and rotating\<close>

text \<open>
  \<open>code.lastUsed && (now - code.lastUsed) < 300000\<close>: an absent \<open>lastUsed\<close> and the
  number 0 are falsy.
\<close>

definition usedRecently :: "int \<Rightarrow> code_record \<Rightarrow> bool" where
  "usedRecently now c =
     (case lastUsed c of None \<Rightarrow> False | Some t \<Rightarrow> t \<noteq> 0 \<and> now - t < 300000)"

definition keepCode :: "int \<Rightarrow> code_record \<Rightarrow> bool" where
  "keepCode now c = (expires c > now \<or> usedRecently now c)"

text \<open>Returns \<open>cleanedCount\<close> and the manager.\<close>

definition cleanExpiredCodes :: "int \<Rightarrow> manager \<Rightarrow> nat \<times> manager" where
  "cleanExpiredCodes now s =
     (let beforeCount = length (preGeneratedCodes s);
          s1 = s\<lparr>preGeneratedCodes := filter (keepCode now) (preGeneratedCodes s)\<rparr>
      in (beforeCount - length (preGeneratedCodes s1), s1))"



definition maintainCodePool :: "int \<Rightarrow> manager \<Rightarrow> random \<Rightarrow> nat \<Rightarrow> manager \<times> nat" where
  "maintainCodePool now s rnd pos =
     (let activeCodes = getActiveCodes now s
      in if length activeCodes < minActiveCodes s
         then snd (generateNewCodes (minActiveCodes s - length activeCodes) now s rnd pos)
         else (s, pos))"

subsection \<open>Export and import\<close>

text \<open>
  \<open>exportCodes\<close> returns \<open>JSON.stringify\<close> of an object and \<open>importCodes\<close> starts with
  \<open>JSON.parse\<close>. The model works on JSON values, not on their text: \<open>JSON.parse\<close>
  of the text of a value is taken to be that value, and a text that does not parse
  is \<open>None\<close>. A \<open>JObj\<close> lists the keys of an object, each once, in insertion order.
\<close>

datatype json =
  JNull | JBool bool | JNum int | JStr string | JArr "json list" | JObj "(string \<times> json) list"

definition code_to_json :: "code_record \<Rightarrow> json" where
  "code_to_json c =
     JObj ([(''code'', JStr (code c)), (''generated'', JNum (generated c)),
            (''expires'', JNum (expires c)), (''status'', JStr (status c)),
            (''uses'', JNum (uses c))]
           @ (case lastUsed c of None \<Rightarrow> [] | Some t \<Rightarrow> [(''lastUsed'', JNum t)]))"

text \<open>
  The record a parsed object stands for: \<open>code_of_json j\<close> is the record whose JSON
  is exactly \<open>j\<close>. Any other value (other keys, another key order, \<open>lastUsed: null\<close>,
  a field of another type) is an object the JavaScript handles but \<open>code_record\<close>
  does not represent, and is \<open>None\<close>.
\<close>

definition code_of_json :: "json \<Rightarrow> code_record option" where
  "code_of_json j =
     (case j of
        JObj kvs \<Rightarrow>
          (case (map_of kvs ''code'', map_of kvs ''generated'', map_of kvs ''expires'',
                 map_of kvs ''status'', map_of kvs ''uses'') of
             (Some (JStr c), Some (JNum g), Some (JNum e), Some (JStr st), Some (JNum u)) \<Rightarrow>
               (let r = \<lparr>code = c, generated = g, expires = e, status = st, uses = u,
                         lastUsed = (case map_of kvs ''lastUsed'' of
                                       Some (JNum l) \<Rightarrow> Some l | _ \<Rightarrow> None)\<rparr>
                in if code_to_json r = j then Some r else None)
           | _ \<Rightarrow> None)
      | _ \<Rightarrow> None)"

text \<open>
  An element of the imported array that the filter of \<open>cleanExpiredCodes\<close> removes at
  any time: on a number, a string, a boolean or an array, \<open>.expires\<close> and \<open>.lastUsed\<close>
  are \<open>undefined\<close>, so \<open>code.expires > now\<close> is false and \<open>code.lastUsed && ...\<close> is
  falsy.
\<close>

fun droppedElement :: "json \<Rightarrow> bool" where
  "droppedElement (JNum n) = True"
| "droppedElement (JStr x) = True"
| "droppedElement (JBool b) = True"
| "droppedElement (JArr xs) = True"
| "droppedElement JNull = False"
| "droppedElement (JObj kvs) = False"

definition exportCodes :: "int \<Rightarrow> manager \<Rightarrow> json" where
  "exportCodes now s =
     JObj [(''codes'', JArr (map code_to_json (preGeneratedCodes s))),
           (''timestamp'', JNum now), (''version'', JStr ''1.0'')]"

datatype import_error =
  InvalidDataFormat  \<comment> \<open>\<open>{success: false, error: 'Invalid data format'}\<close>\<close>
| Thrown             \<comment> \<open>\<open>{success: false, error: error.message}\<close>, from the \<open>catch\<close>\<close>

text \<open>
  \<open>importCodes\<close> returns the manager and the result, \<open>Inr n\<close> for
  \<open>{success: true, imported: n}\<close>. Reading \<open>.codes\<close> of \<open>null\<close> throws; of a number,
  string, boolean or array it is \<open>undefined\<close>; in these cases, and when the text does
  not parse, the pool is not touched.

  Once \<open>codes\<close> is an array, the pool is replaced by it before anything else
  (\<open>this.preGeneratedCodes = importData.codes\<close>), and cleaned:
  \<^item> an element \<open>null\<close> makes the filter of \<open>cleanExpiredCodes\<close> throw on
    \<open>code.expires\<close>; the \<open>catch\<close> of \<open>importCodes\<close> returns the failure, and the pool
    stays the array as it was imported, \<open>null\<close> included;
  \<^item> otherwise the filter runs to its end and success is returned, with the length of
    the imported array.
  The pool that results is a list of code records when every element that the filter
  does not drop at once (\<open>droppedElement\<close>) is a code record. Otherwise it holds
  values that \<open>code_record\<close> does not represent: the manager returned is \<open>None\<close>, and
  the model says nothing about it.
\<close>

definition importCodes ::
  "json option \<Rightarrow> int \<Rightarrow> manager \<Rightarrow> manager option \<times> (import_error + nat)" where
  "importCodes jsonData now s =
     (case jsonData of
        None \<Rightarrow> (Some s, Inl Thrown)
      | Some JNull \<Rightarrow> (Some s, Inl Thrown)
      | Some (JObj kvs) \<Rightarrow>
          (case map_of kvs ''codes'' of
             Some (JArr xs) \<Rightarrow>
               if list_ex (\<lambda>x. x = JNull) xs then (None, Inl Thrown)
               else (case those (map code_of_json (filter (\<lambda>x. \<not> droppedElement x) xs)) of
                       None \<Rightarrow> (None, Inr (length xs))
                     | Some cs \<Rightarrow>
                         (Some (snd (cleanExpiredCodes now (s\<lparr>preGeneratedCodes := cs\<rparr>))),
                          Inr (length xs)))
           | _ \<Rightarrow> (Some s, Inl InvalidDataFormat))
      | Some _ \<Rightarrow> (Some s, Inl InvalidDataFormat))"

subsection \<open>Retry exhaustion\<close>

text \<open>
  All \<open>maxAttempts\<close> draws from position \<open>pos\<close> on give codes that the pool holds:
  the only case in which \<open>generateUniqueCode\<close> returns a code of the pool.
\<close>

definition attemptsExhausted :: "code_record list \<Rightarrow> random \<Rightarrow> nat \<Rightarrow> bool" where
  "attemptsExhausted pool rnd pos =
     list_all (\<lambda>k. list_ex (\<lambda>c. code c = toString (draw rnd (pos + k))) pool) [0..<maxAttempts]"

subsection \<open>Example pools\<close>

text \<open>A manager with the constructor's configuration and the given records.\<close>

definition withCodes :: "code_record list \<Rightarrow> manager" where
  "withCodes cs = constructor\<lparr>preGeneratedCodes := cs\<rparr>"

definition boundaryCode :: code_record where
  "boundaryCode =
     \<lparr>code = ''12345'', generated = 0, expires = 3600000, status = ''active'', uses = 0,
      lastUsed = None\<rparr>"


text \<open>
  A record that expires at 3600000, before and after \<open>markCodeAsUsed\<close> at 7199000:
  at time 7200000 it is expired for an hour, and was used a second ago.
\<close>

definition staleCode :: code_record where
  "staleCode =
     \<lparr>code = ''34567'', generated = 0, expires = 3600000, status = ''active'', uses = 0,
      lastUsed = None\<rparr>"

definition staleUsedCode :: code_record where
  "staleUsedCode =
     \<lparr>code = ''34567'', generated = 0, expires = 3600000, status = ''active'', uses = 1,
      lastUsed = Some 7199000\<rparr>"

text \<open>The records two calls of \<open>getNextCode\<close> create from the empty pool.\<close>

definition firstEmergency :: code_record where
  "firstEmergency =
     \<lparr>code = ''10000'', generated = 1000, expires = 3601000, status = ''emergency'', uses = 1,
      lastUsed = None\<rparr>"

definition secondEmergency :: code_record where
  "secondEmergency =
     \<lparr>code = ''10001'', generated = 2000, expires = 3602000, status = ''emergency'', uses = 1,
      lastUsed = None\<rparr>"

definition freshActive :: code_record where
  "freshActive =
     \<lparr>code = ''45789'', generated = 1000, expires = 3601000, status = ''active'', uses = 0,
      lastUsed = None\<rparr>"

text \<open>
  The record \<open>getNextCode\<close> creates at time 2000 when every draw is 0: it has the code
  of \<open>firstEmergency\<close>.
\<close>

definition repeatedEmergency :: code_record where
  "repeatedEmergency =
     \<lparr>code = ''10000'', generated = 2000, expires = 3602000, status = ''emergency'', uses = 1,
      lastUsed = None\<rparr>"

text \<open>Draws that give 7, 7 and 8, then 7 for ever.\<close>

definition draws778 :: random where
  "draws778 = (\<lambda>i. if i = 2 then 8 else 7)"

text \<open>A retiring record with the code that the draw 0 gives.\<close>

definition heldRetiring :: code_record where
  "heldRetiring =
     \<lparr>code = ''10000'', generated = 0, expires = 3600000, status = ''retiring'', uses = 0,
      lastUsed = None\<rparr>"

text \<open>Twenty-one records, one more than \<open>maxCodes\<close>, expiring a minute apart.\<close>

definition overfullPool :: "code_record list" where
  "overfullPool =
     map (\<lambda>i. \<lparr>code = ''45789'', generated = i * 60000, expires = 3600000 + i * 60000,
               status = ''active'', uses = 0, lastUsed = None\<rparr>) [0..20]"




section \<open>Properties\<close>

subsection \<open>References into the pool\<close>

lemma getActiveRefs_mem:
  "p \<in> set (getActiveRefs now s) \<Longrightarrow>
     fst p < length (preGeneratedCodes s) \<and> preGeneratedCodes s ! fst p = snd p \<and>
     isActive now (snd p)"
  by (cases p) (auto simp: getActiveRefs_def in_set_enumerate_eq)

lemma map_snd_insort_key:
  "map snd (insort_key (\<lambda>p. f (snd p)) x xs) = insort_key f (snd x) (map snd xs)"
  by (induction xs) auto

lemma map_snd_sort_key: "map snd (sort_key (\<lambda>p. f (snd p)) xs) = sort_key f (map snd xs)"
  by (induction xs) (auto simp: map_snd_insort_key)

lemma map_snd_filter_enumerate:
  "map snd (filter (\<lambda>p. P (snd p)) (enumerate n xs)) = filter P xs"
  by (induction xs arbitrary: n) auto

text \<open>Without the indices, \<open>getActiveRefs\<close> is the array \<open>getActiveCodes\<close> returns.\<close>

lemma getActiveRefs_codes: "map snd (getActiveRefs now s) = getActiveCodes now s"
  unfolding getActiveRefs_def getActiveCodes_def
  by (simp add: map_snd_sort_key [of "\<lambda>c. - generated c"]
        map_snd_filter_enumerate [of "isActive now"])

lemma getActiveRefs_Nil_iff: "getActiveRefs now s = [] \<longleftrightarrow> getActiveCodes now s = []"
  using getActiveRefs_codes [of now s] by (metis map_is_Nil_conv)

lemma getActiveCodes_Nil_iff:
  "getActiveCodes now s = [] \<longleftrightarrow> filter (isActive now) (preGeneratedCodes s) = []"
  by (metis getActiveCodes_def length_0_conv length_sort)

subsection \<open>The two branches of \<open>getNextCode\<close>\<close>

lemma getNextCode_no_active:
  "getActiveCodes now s = [] \<Longrightarrow>
     getNextCode now s rnd pos = Some (generateEmergencyCode now s rnd pos)"
  by (simp add: getNextCode_def getActiveRefs_Nil_iff)

lemma getNextCode_some_active:
  assumes "getActiveCodes now s \<noteq> []"
  shows "\<exists>p. p \<in> set (getActiveRefs now s) \<and>
           getNextCode now s rnd pos =
             Some ((snd p)\<lparr>uses := uses (snd p) + 1\<rparr>,
                   s\<lparr>preGeneratedCodes :=
                       (preGeneratedCodes s)[fst p := (snd p)\<lparr>uses := uses (snd p) + 1\<rparr>]\<rparr>,
                   pos)"
proof -
  let ?refs = "getActiveRefs now s"
  let ?sorted = "sort_key (\<lambda>p. uses (snd p)) ?refs"
  from assms have ne: "?refs \<noteq> []" by (simp add: getActiveRefs_Nil_iff)
  then have "?sorted \<noteq> []" by (metis length_0_conv length_sort)
  then obtain p ps where ps: "?sorted = p # ps" by (cases ?sorted) auto
  then have "p \<in> set ?sorted" by simp
  then have "p \<in> set ?refs" by simp
  moreover have "getNextCode now s rnd pos =
             Some ((snd p)\<lparr>uses := uses (snd p) + 1\<rparr>,
                   s\<lparr>preGeneratedCodes :=
                       (preGeneratedCodes s)[fst p := (snd p)\<lparr>uses := uses (snd p) + 1\<rparr>]\<rparr>,
                   pos)"
    using ne ps by (simp add: getNextCode_def Let_def)
  ultimately show ?thesis by blast
qed

text \<open>
  C5. At every time and for every draw, \<open>getNextCode\<close> returns a record (the TypeError
  branch is never taken); on an empty pool the record has status \<open>emergency\<close> and
  \<open>uses = 1\<close>, and the pool grows by exactly one record.
\<close>

theorem getNextCode_empty_pool:
  "(\<exists>res. getNextCode now s rnd pos = Some res) \<and>
   (preGeneratedCodes s = [] \<longrightarrow>
      (\<exists>r s' pos'. getNextCode now s rnd pos = Some (r, s', pos') \<and>
         status r = ''emergency'' \<and> uses r = 1 \<and>
         length (preGeneratedCodes s') = length (preGeneratedCodes s) + 1))"
proof
  show "\<exists>res. getNextCode now s rnd pos = Some res"
  proof (cases "getActiveCodes now s = []")
    case True
    then show ?thesis by (metis getNextCode_no_active)
  next
    case False
    from getNextCode_some_active [OF this, of rnd pos] show ?thesis by blast
  qed
next
  show "preGeneratedCodes s = [] \<longrightarrow>
      (\<exists>r s' pos'. getNextCode now s rnd pos = Some (r, s', pos') \<and>
         status r = ''emergency'' \<and> uses r = 1 \<and>
         length (preGeneratedCodes s') = length (preGeneratedCodes s) + 1)"
  proof
    assume e: "preGeneratedCodes s = []"
    then have "getActiveCodes now s = []" by (simp add: getActiveCodes_def)
    then have "getNextCode now s rnd pos = Some (generateEmergencyCode now s rnd pos)"
      by (rule getNextCode_no_active)
    then show "\<exists>r s' pos'. getNextCode now s rnd pos = Some (r, s', pos') \<and>
         status r = ''emergency'' \<and> uses r = 1 \<and>
         length (preGeneratedCodes s') = length (preGeneratedCodes s) + 1"
      by (simp add: generateEmergencyCode_def Let_def)
  qed
qed

theorem getNextCode_empty_pool_witness:
  "preGeneratedCodes constructor = [] \<and>
   (\<exists>r s' pos'. getNextCode 1000 constructor (\<lambda>i. 0) 0 = Some (r, s', pos') \<and>
         status r = ''emergency'' \<and> uses r = 1 \<and>
         length (preGeneratedCodes s') = length (preGeneratedCodes constructor) + 1)"
proof -
  have h: "preGeneratedCodes constructor = []" by (simp add: constructor_def)
  from getNextCode_empty_pool [of 1000 constructor "\<lambda>i. 0" 0] h show ?thesis by blast
qed

subsection \<open>Evaluation on concrete pools\<close>

lemmas eval_simps = toString.simps digit_def generateUniqueCode_def generateUniqueCode_loop.simps
  draw_def maxAttempts_def constructor_def withCodes_def getNextCode_def getActiveRefs_def
  generateEmergencyCode_def isActive_def Let_def





subsection \<open>\<open>validateCode\<close>\<close>

lemma validateCode_unknown:
  "\<not> list_ex (\<lambda>c. code c = codeString) (preGeneratedCodes s) \<Longrightarrow>
     validateCode codeString now s = Inl NotFound"
proof -
  assume "\<not> list_ex (\<lambda>c. code c = codeString) (preGeneratedCodes s)"
  then have "find (\<lambda>c. code c = codeString) (preGeneratedCodes s) = None"
    by (simp add: find_None_iff list_ex_iff)
  then show ?thesis by (simp add: validateCode_def)
qed

lemma validateCode_expired:
  "find (\<lambda>c. code c = codeString) (preGeneratedCodes s) = Some c \<Longrightarrow> expires c < now \<Longrightarrow>
     validateCode codeString now s = Inl Expired"
  by (simp add: validateCode_def)

lemma validateCode_emergency:
  assumes "find (\<lambda>c. code c = codeString) (preGeneratedCodes s) = Some c"
    and "status c = ''emergency''" and "expires c > now"
  shows "validateCode codeString now s =
           Inr \<lparr>vcode = c, timeLeft = expires c - now, vuses = uses c\<rparr>"
  using assms by (simp add: validateCode_def)

text \<open>
  C2. The claim wants \<open>Expired\<close> for a record whose \<open>expires\<close> equals the current time.
  \<open>validateCode\<close> tests \<open>code.expires < Date.now()\<close>: at time 3600000 the active record
  \<open>boundaryCode\<close>, which expires at 3600000, is valid with no time left, although
  \<open>getActiveCodes\<close> (\<open>code.expires > now\<close>) no longer lists it and \<open>cleanExpiredCodes\<close>
  (\<open>code.expires > now\<close>) removes it at that same time.
\<close>

theorem validateCode_at_expiry_instant:
  "validateCode ''12345'' 3600000 (withCodes [boundaryCode]) =
     Inr \<lparr>vcode = boundaryCode, timeLeft = 0, vuses = 0\<rparr> \<and>
   expires boundaryCode = 3600000 \<and>
   getActiveCodes 3600000 (withCodes [boundaryCode]) = [] \<and>
   cleanExpiredCodes 3600000 (withCodes [boundaryCode]) = (1, withCodes [])"
  by (simp add: validateCode_def withCodes_def boundaryCode_def constructor_def
        getActiveCodes_def isActive_def cleanExpiredCodes_def keepCode_def usedRecently_def)




subsection \<open>\<open>cleanExpiredCodes\<close>\<close>

text \<open>
  \<open>markCodeAsUsed\<close> at time 7199000 turns \<open>staleCode\<close> into \<open>staleUsedCode\<close>. At time
  7200000 that record is expired, and more than five minutes past its expiry; it was
  used a second ago, and is kept.
\<close>

theorem cleanExpiredCodes_counterexample:
  "markCodeAsUsed ''34567'' 7199000 (withCodes [staleCode]) = withCodes [staleUsedCode] \<and>
   expires staleUsedCode \<le> 7200000 \<and> expires staleUsedCode + 300000 < 7200000 \<and>
   cleanExpiredCodes 7200000 (withCodes [staleUsedCode]) = (0, withCodes [staleUsedCode])"
  by (simp add: markCodeAsUsed_def staleCode_def cleanExpiredCodes_def withCodes_def
        staleUsedCode_def keepCode_def usedRecently_def)

text \<open>
  C9, as amended. \<open>cleanExpiredCodes\<close> removes a record if and only if its \<open>expires\<close> is
  at most \<open>now\<close> and it was not used within the last five minutes before \<open>now\<close>
  (\<open>lastUsed\<close> absent or 0, or at least 300000 ms before \<open>now\<close>), however long ago it
  expired; every record with \<open>expires > now\<close> is kept, and the number returned is the
  number of records removed.
\<close>

theorem cleanExpiredCodes_rule:
  "preGeneratedCodes (snd (cleanExpiredCodes now s)) =
     filter (\<lambda>c. \<not> (expires c \<le> now \<and>
                      (case lastUsed c of None \<Rightarrow> True | Some t \<Rightarrow> t = 0 \<or> 300000 \<le> now - t)))
       (preGeneratedCodes s) \<and>
   filter (\<lambda>c. expires c > now) (preGeneratedCodes (snd (cleanExpiredCodes now s))) =
     filter (\<lambda>c. expires c > now) (preGeneratedCodes s) \<and>
   fst (cleanExpiredCodes now s) + length (preGeneratedCodes (snd (cleanExpiredCodes now s))) =
     length (preGeneratedCodes s)"
proof -
  have k: "keepCode now = (\<lambda>c. \<not> (expires c \<le> now \<and>
              (case lastUsed c of None \<Rightarrow> True | Some t \<Rightarrow> t = 0 \<or> 300000 \<le> now - t)))"
    by (auto simp: keepCode_def usedRecently_def fun_eq_iff split: option.splits)
  have p: "preGeneratedCodes (snd (cleanExpiredCodes now s)) =
      filter (keepCode now) (preGeneratedCodes s)"
    by (simp add: cleanExpiredCodes_def Let_def)
  have "filter (\<lambda>c. expires c > now) (filter (keepCode now) (preGeneratedCodes s)) =
     filter (\<lambda>c. expires c > now) (preGeneratedCodes s)"
    by (auto simp: keepCode_def intro: filter_cong)
  moreover have
    "fst (cleanExpiredCodes now s) + length (filter (keepCode now) (preGeneratedCodes s)) =
     length (preGeneratedCodes s)"
    by (simp add: cleanExpiredCodes_def Let_def)
  ultimately show ?thesis unfolding p unfolding k by simp
qed

subsection \<open>When \<open>getNextCode\<close> creates an emergency record\<close>

text \<open>
  From the empty pool, \<open>getNextCode\<close> at time 1000 creates \<open>firstEmergency\<close>. At time
  2000 that record is valid (not expired, status \<open>emergency\<close>), and \<open>getNextCode\<close>
  creates a second emergency record.
\<close>

theorem emergency_with_valid_counterexample:
  "getNextCode 1000 constructor (\<lambda>i. i) 0 =
     Some (firstEmergency, withCodes [firstEmergency], 1) \<and>
   expires firstEmergency > 2000 \<and> status firstEmergency = ''emergency'' \<and>
   getNextCode 2000 (withCodes [firstEmergency]) (\<lambda>i. i) 1 =
     Some (secondEmergency, withCodes [firstEmergency, secondEmergency], 2) \<and>
   status secondEmergency = ''emergency''"
  by (simp add: eval_simps firstEmergency_def secondEmergency_def)

lemma list_ex_isActive:
  "list_ex (\<lambda>c. expires c > now \<and> status c = ''active'') (preGeneratedCodes s) \<longleftrightarrow>
     getActiveCodes now s \<noteq> []"
  by (auto simp: getActiveCodes_Nil_iff list_ex_iff filter_empty_conv isActive_def)

lemma map_status_update:
  "i < length xs \<Longrightarrow> map status (xs[i := (xs ! i)\<lparr>uses := u\<rparr>]) = map status xs"
  by (simp add: map_update list_update_same_conv)

text \<open>
  C4, as amended. \<open>getNextCode\<close> creates a record with status \<open>emergency\<close> exactly
  when, at that time, the pool holds no record with \<open>expires > now\<close> and status
  \<open>active\<close>; records with status \<open>emergency\<close> that are not expired do not count.
  Otherwise the call creates no record and changes no status.
\<close>

theorem getNextCode_emergency_iff:
  "(case getNextCode now s rnd pos of
      None \<Rightarrow> False
    | Some (r, s', pos') \<Rightarrow>
        if list_ex (\<lambda>c. expires c > now \<and> status c = ''active'') (preGeneratedCodes s)
        then map status (preGeneratedCodes s') = map status (preGeneratedCodes s)
        else status r = ''emergency'' \<and> preGeneratedCodes s' = preGeneratedCodes s @ [r])"
proof (cases "getActiveCodes now s = []")
  case True
  then show ?thesis
    by (simp add: getNextCode_no_active list_ex_isActive generateEmergencyCode_def Let_def)
next
  case False
  from getNextCode_some_active [OF False, of rnd pos] obtain p where
    p: "p \<in> set (getActiveRefs now s)" and
    g: "getNextCode now s rnd pos =
             Some ((snd p)\<lparr>uses := uses (snd p) + 1\<rparr>,
                   s\<lparr>preGeneratedCodes :=
                       (preGeneratedCodes s)[fst p := (snd p)\<lparr>uses := uses (snd p) + 1\<rparr>]\<rparr>,
                   pos)" by blast
  from getActiveRefs_mem [OF p] have i: "fst p < length (preGeneratedCodes s)"
    and e: "preGeneratedCodes s ! fst p = snd p" by simp_all
  from map_status_update [OF i, of "uses (snd p) + 1"] e False show ?thesis
    by (simp add: g list_ex_isActive)
qed


subsection \<open>Which record \<open>getNextCode\<close> hands out\<close>

text \<open>
  A code returned by \<open>generateUniqueCode\<close> is held by no record of the pool, unless
  all 100 attempts drew a code of the pool.
\<close>

lemma generateUniqueCode_loop_fresh:
  "list_ex (\<lambda>c. code c = fst (generateUniqueCode_loop pool rnd pos a)) pool \<Longrightarrow>
   k < maxAttempts - a \<Longrightarrow>
   list_ex (\<lambda>c. code c = toString (draw rnd (pos + k))) pool"
proof (induction pool rnd pos a arbitrary: k rule: generateUniqueCode_loop.induct)
  case (1 pool rnd pos attempts)
  let ?again = "list_ex (\<lambda>c. code c = toString (draw rnd pos)) pool \<and> Suc attempts < maxAttempts"
  show ?case
  proof (cases ?again)
    case True
    then have step: "generateUniqueCode_loop pool rnd pos attempts =
        generateUniqueCode_loop pool rnd (Suc pos) (Suc attempts)"
      by (subst generateUniqueCode_loop.simps) simp
    show ?thesis
    proof (cases k)
      case 0
      with True show ?thesis by simp
    next
      case (Suc k')
      with "1.prems" have "k' < maxAttempts - Suc attempts" by simp
      moreover from "1.prems"(1) step
      have "list_ex (\<lambda>c. code c = fst (generateUniqueCode_loop pool rnd (Suc pos) (Suc attempts))) pool"
        by simp
      ultimately have "list_ex (\<lambda>c. code c = toString (draw rnd (Suc pos + k'))) pool"
        using "1.IH" [OF True] by blast
      with Suc show ?thesis by simp
    qed
  next
    case False
    have stop: "generateUniqueCode_loop pool rnd pos attempts = (toString (draw rnd pos), Suc pos)"
      by (subst generateUniqueCode_loop.simps) (use False in auto)
    with "1.prems"(1) have held: "list_ex (\<lambda>c. code c = toString (draw rnd pos)) pool" by simp
    with False have "\<not> Suc attempts < maxAttempts" by simp
    with "1.prems"(2) have "k = 0" by simp
    with held show ?thesis by simp
  qed
qed

lemma generateUniqueCode_fresh:
  assumes "list_ex (\<lambda>c. code c = fst (generateUniqueCode s rnd pos)) (preGeneratedCodes s)"
  shows "attemptsExhausted (preGeneratedCodes s) rnd pos"
  unfolding attemptsExhausted_def list_all_iff
proof
  fix k assume "k \<in> set [0..<maxAttempts]"
  then have "k < maxAttempts - 0" by simp
  with assms show "list_ex (\<lambda>c. code c = toString (draw rnd (pos + k))) (preGeneratedCodes s)"
    unfolding generateUniqueCode_def by (rule generateUniqueCode_loop_fresh)
qed

text \<open>When every draw is the same number, the code returned is its string.\<close>

lemma constant_draws:
  "\<forall>k. rnd k = d \<Longrightarrow>
     fst (generateUniqueCode_loop pool rnd pos a) = toString (10000 + d mod 90000)"
proof (induction pool rnd pos a rule: generateUniqueCode_loop.induct)
  case (1 pool rnd pos attempts)
  show ?case
  proof (cases "list_ex (\<lambda>c. code c = toString (draw rnd pos)) pool \<and> Suc attempts < maxAttempts")
    case True
    with "1.IH" [OF True "1.prems"] show ?thesis
      by (subst generateUniqueCode_loop.simps) simp
  next
    case False
    have stop: "generateUniqueCode_loop pool rnd pos attempts = (toString (draw rnd pos), Suc pos)"
      by (subst generateUniqueCode_loop.simps) (use False in auto)
    have "draw rnd pos = 10000 + d mod 90000"
      using "1.prems" by (simp add: draw_def)
    then show ?thesis by (simp only: stop fst_conv)
  qed
qed

text \<open>
  When every draw is the same number and its code is held by the pool, all attempts
  are used up.
\<close>

lemma constant_draws_exhaust:
  "\<forall>k. rnd k = d \<Longrightarrow> list_ex (\<lambda>c. code c = toString (10000 + d mod 90000)) pool \<Longrightarrow>
   a < maxAttempts \<Longrightarrow>
     generateUniqueCode_loop pool rnd pos a =
       (toString (10000 + d mod 90000), pos + (maxAttempts - a))"
proof (induction pool rnd pos a rule: generateUniqueCode_loop.induct)
  case (1 pool rnd pos attempts)
  have d: "draw rnd pos = 10000 + d mod 90000"
    using "1.prems"(1) by (simp add: draw_def)
  show ?case
  proof (cases "Suc attempts < maxAttempts")
    case True
    with "1.prems"(2) d
    have again: "list_ex (\<lambda>c. code c = toString (draw rnd pos)) pool \<and> Suc attempts < maxAttempts"
      by simp
    then have "generateUniqueCode_loop pool rnd pos attempts =
        generateUniqueCode_loop pool rnd (Suc pos) (Suc attempts)"
      by (subst generateUniqueCode_loop.simps) simp
    also have "\<dots> = (toString (10000 + d mod 90000), Suc pos + (maxAttempts - Suc attempts))"
      using "1.IH" [OF again "1.prems"(1) "1.prems"(2) True] .
    finally show ?thesis using True by simp
  next
    case False
    then have "generateUniqueCode_loop pool rnd pos attempts = (toString (draw rnd pos), Suc pos)"
      by (subst generateUniqueCode_loop.simps) simp
    moreover from False "1.prems"(3) have "maxAttempts - attempts = 1" by simp
    ultimately show ?thesis by (simp only: d) simp
  qed
qed

text \<open>
  At time 2000 the pool holds the emergency record \<open>firstEmergency\<close>, not expired, and
  every draw gives its code 10000. \<open>getNextCode\<close> uses up its 100 attempts and hands
  out a new emergency record with that same code: the code is not a fresh one, and
  the pool holds it twice.
\<close>

theorem getNextCode_fresh_counterexample:
  "status firstEmergency = ''emergency'' \<and> expires firstEmergency > 2000 \<and>
   getNextCode 2000 (withCodes [firstEmergency]) (\<lambda>i. 0) 1 =
     Some (repeatedEmergency, withCodes [firstEmergency, repeatedEmergency], 101) \<and>
   code repeatedEmergency = code firstEmergency \<and>
   map code (preGeneratedCodes (withCodes [firstEmergency, repeatedEmergency])) =
     [''10000'', ''10000'']"
proof -
  let ?s = "withCodes [firstEmergency]"
  have na: "getActiveCodes 2000 ?s = []"
    by (simp add: getActiveCodes_def withCodes_def firstEmergency_def isActive_def)
  have "generateUniqueCode_loop (preGeneratedCodes ?s) (\<lambda>i. 0) 1 0 =
      (toString (10000 + 0 mod 90000), 1 + (maxAttempts - 0))"
    by (rule constant_draws_exhaust)
      (simp_all add: withCodes_def firstEmergency_def toString.simps digit_def maxAttempts_def)
  then have u: "generateUniqueCode ?s (\<lambda>i. 0) 1 = (''10000'', 101)"
    by (simp add: generateUniqueCode_def toString.simps digit_def maxAttempts_def)
  have g: "getNextCode 2000 ?s (\<lambda>i. 0) 1 = Some (generateEmergencyCode 2000 ?s (\<lambda>i. 0) 1)"
    by (rule getNextCode_no_active [OF na])
  have e: "generateEmergencyCode 2000 ?s (\<lambda>i. 0) 1 =
      (repeatedEmergency, withCodes [firstEmergency, repeatedEmergency], 101)"
    unfolding generateEmergencyCode_def u
    by (simp add: withCodes_def repeatedEmergency_def Let_def)
  show ?thesis
    unfolding g e by (simp add: firstEmergency_def repeatedEmergency_def withCodes_def)
qed

text \<open>
  C10, as amended. The record \<open>getNextCode\<close> returns is either a record of the pool that
  \<open>getActiveCodes\<close> lists (status \<open>active\<close>, not expired), with \<open>uses\<close> incremented in
  place, or, when \<open>getActiveCodes\<close> is empty, an emergency record created in this call
  and appended to the pool, with the code \<open>generateUniqueCode\<close> has just drawn: a code
  of no record of the pool, unless all 100 attempts drew codes of the pool. A record of
  the pool with status \<open>emergency\<close> is never the one selected: the call leaves it as
  it is, although \<open>validateCode\<close> accepts its code while it is not expired.
\<close>

theorem getNextCode_selection:
  "(case getNextCode now s rnd pos of
      None \<Rightarrow> False
    | Some (r, s', pos') \<Rightarrow>
        (if getActiveCodes now s = []
         then status r = ''emergency'' \<and> uses r = 1 \<and> generated r = now \<and>
              code r = fst (generateUniqueCode s rnd pos) \<and>
              (list_ex (\<lambda>c. code c = code r) (preGeneratedCodes s) \<longrightarrow>
                 attemptsExhausted (preGeneratedCodes s) rnd pos) \<and>
              preGeneratedCodes s' = preGeneratedCodes s @ [r]
         else (\<exists>i<length (preGeneratedCodes s).
                 preGeneratedCodes s ! i \<in> set (getActiveCodes now s) \<and>
                 status (preGeneratedCodes s ! i) = ''active'' \<and>
                 expires (preGeneratedCodes s ! i) > now \<and>
                 r = (preGeneratedCodes s ! i)\<lparr>uses := uses (preGeneratedCodes s ! i) + 1\<rparr> \<and>
                 preGeneratedCodes s' = (preGeneratedCodes s)[i := r])) \<and>
        (\<forall>i<length (preGeneratedCodes s).
           status (preGeneratedCodes s ! i) = ''emergency'' \<longrightarrow>
             preGeneratedCodes s' ! i = preGeneratedCodes s ! i \<and>
             (expires (preGeneratedCodes s ! i) > now \<and>
              find (\<lambda>c. code c = code (preGeneratedCodes s ! i)) (preGeneratedCodes s) =
                Some (preGeneratedCodes s ! i) \<longrightarrow>
              validateCode (code (preGeneratedCodes s ! i)) now s =
                Inr \<lparr>vcode = preGeneratedCodes s ! i,
                     timeLeft = expires (preGeneratedCodes s ! i) - now,
                     vuses = uses (preGeneratedCodes s ! i)\<rparr>)))"
proof (cases "getActiveCodes now s = []")
  case True
  have "list_ex (\<lambda>c. code c = fst (generateUniqueCode s rnd pos)) (preGeneratedCodes s) \<longrightarrow>
          attemptsExhausted (preGeneratedCodes s) rnd pos"
    using generateUniqueCode_fresh by blast
  with True show ?thesis
    by (simp add: getNextCode_no_active generateEmergencyCode_def Let_def nth_append
          validateCode_emergency)
next
  case False
  from getNextCode_some_active [OF False, of rnd pos] obtain p where
    p: "p \<in> set (getActiveRefs now s)" and
    g: "getNextCode now s rnd pos =
             Some ((snd p)\<lparr>uses := uses (snd p) + 1\<rparr>,
                   s\<lparr>preGeneratedCodes :=
                       (preGeneratedCodes s)[fst p := (snd p)\<lparr>uses := uses (snd p) + 1\<rparr>]\<rparr>,
                   pos)" by blast
  from getActiveRefs_mem [OF p] have i: "fst p < length (preGeneratedCodes s)"
    and e: "preGeneratedCodes s ! fst p = snd p" and a: "isActive now (snd p)" by simp_all
  from p have "snd p \<in> set (map snd (getActiveRefs now s))" by force
  then have m: "snd p \<in> set (getActiveCodes now s)" by (simp add: getActiveRefs_codes)
  have sel: "\<exists>i<length (preGeneratedCodes s).
                 preGeneratedCodes s ! i \<in> set (getActiveCodes now s) \<and>
                 status (preGeneratedCodes s ! i) = ''active'' \<and>
                 expires (preGeneratedCodes s ! i) > now \<and>
                 (snd p)\<lparr>uses := uses (snd p) + 1\<rparr> =
                   (preGeneratedCodes s ! i)\<lparr>uses := uses (preGeneratedCodes s ! i) + 1\<rparr> \<and>
                 (preGeneratedCodes s)[fst p := (snd p)\<lparr>uses := uses (snd p) + 1\<rparr>] =
                   (preGeneratedCodes s)[i := (snd p)\<lparr>uses := uses (snd p) + 1\<rparr>]"
    using i e a m by (intro exI [of _ "fst p"]) (simp add: isActive_def)
  have untouched: "(preGeneratedCodes s)[fst p := (snd p)\<lparr>uses := uses (snd p) + 1\<rparr>] ! j =
      preGeneratedCodes s ! j" if "status (preGeneratedCodes s ! j) = ''emergency''" for j
  proof (cases "j = fst p")
    case True
    with that e a show ?thesis by (simp add: isActive_def)
  next
    case False
    then show ?thesis by simp
  qed
  show ?thesis
    unfolding g using False sel untouched by (simp add: validateCode_emergency)
qed

theorem getNextCode_selection_witness:
  "getNextCode 2000 (withCodes [firstEmergency, freshActive]) (\<lambda>i. i) 1 =
     Some (freshActive\<lparr>uses := 1\<rparr>, withCodes [firstEmergency, freshActive\<lparr>uses := 1\<rparr>], 1) \<and>
   status firstEmergency = ''emergency'' \<and> expires firstEmergency > 2000 \<and>
   preGeneratedCodes (withCodes [firstEmergency, freshActive\<lparr>uses := 1\<rparr>]) ! 0 =
     firstEmergency \<and>
   validateCode (code firstEmergency) 2000 (withCodes [firstEmergency, freshActive]) =
     Inr \<lparr>vcode = firstEmergency, timeLeft = 3599000, vuses = 1\<rparr> \<and>
   list_ex (\<lambda>c. code c = ''10000'') (preGeneratedCodes (withCodes [heldRetiring])) \<and>
   attemptsExhausted (preGeneratedCodes (withCodes [heldRetiring])) (\<lambda>i. 0) 0"
proof -
  let ?s = "withCodes [firstEmergency, freshActive]"
  have g: "getNextCode 2000 ?s (\<lambda>i. i) 1 =
     Some (freshActive\<lparr>uses := 1\<rparr>, withCodes [firstEmergency, freshActive\<lparr>uses := 1\<rparr>], 1)"
    by (simp add: eval_simps firstEmergency_def freshActive_def)
  have len: "0 < length (preGeneratedCodes ?s)" by (simp add: withCodes_def)
  have st: "status (preGeneratedCodes ?s ! 0) = ''emergency''"
    by (simp add: withCodes_def firstEmergency_def)
  have ex: "expires (preGeneratedCodes ?s ! 0) > 2000"
    by (simp add: withCodes_def firstEmergency_def)
  have f: "find (\<lambda>c. code c = code (preGeneratedCodes ?s ! 0)) (preGeneratedCodes ?s) =
      Some (preGeneratedCodes ?s ! 0)"
    by (simp add: withCodes_def firstEmergency_def)
  have z: "preGeneratedCodes ?s ! 0 = firstEmergency" by (simp add: withCodes_def)
  from getNextCode_selection [of 2000 ?s "\<lambda>i. i" 1]
  have "\<forall>i<length (preGeneratedCodes ?s).
           status (preGeneratedCodes ?s ! i) = ''emergency'' \<longrightarrow>
             preGeneratedCodes (withCodes [firstEmergency, freshActive\<lparr>uses := 1\<rparr>]) ! i =
               preGeneratedCodes ?s ! i \<and>
             (expires (preGeneratedCodes ?s ! i) > 2000 \<and>
              find (\<lambda>c. code c = code (preGeneratedCodes ?s ! i)) (preGeneratedCodes ?s) =
                Some (preGeneratedCodes ?s ! i) \<longrightarrow>
              validateCode (code (preGeneratedCodes ?s ! i)) 2000 ?s =
                Inr \<lparr>vcode = preGeneratedCodes ?s ! i,
                     timeLeft = expires (preGeneratedCodes ?s ! i) - 2000,
                     vuses = uses (preGeneratedCodes ?s ! i)\<rparr>)"
    unfolding g by simp
  with len st ex f have
    "preGeneratedCodes (withCodes [firstEmergency, freshActive\<lparr>uses := 1\<rparr>]) ! 0 =
       preGeneratedCodes ?s ! 0 \<and>
     validateCode (code (preGeneratedCodes ?s ! 0)) 2000 ?s =
       Inr \<lparr>vcode = preGeneratedCodes ?s ! 0,
            timeLeft = expires (preGeneratedCodes ?s ! 0) - 2000,
            vuses = uses (preGeneratedCodes ?s ! 0)\<rparr>"
    by blast
  then have untouched:
    "preGeneratedCodes (withCodes [firstEmergency, freshActive\<lparr>uses := 1\<rparr>]) ! 0 =
       firstEmergency \<and>
     validateCode (code firstEmergency) 2000 ?s =
       Inr \<lparr>vcode = firstEmergency, timeLeft = 3599000, vuses = 1\<rparr>"
    unfolding z by (simp add: firstEmergency_def)
  have fe: "status firstEmergency = ''emergency''" "expires firstEmergency > 2000"
    by (simp_all add: firstEmergency_def)
  let ?h = "withCodes [heldRetiring]"
  have na: "getActiveCodes 1000 ?h = []"
    by (simp add: getActiveCodes_def withCodes_def heldRetiring_def isActive_def)
  have c: "fst (generateUniqueCode ?h (\<lambda>i. 0) 0) = ''10000''"
    unfolding generateUniqueCode_def
    by (subst constant_draws [of _ 0]) (simp_all add: toString.simps digit_def)
  have held: "list_ex (\<lambda>c. code c = ''10000'') (preGeneratedCodes ?h)"
    by (simp add: withCodes_def heldRetiring_def)
  from getNextCode_selection [of 1000 ?h "\<lambda>i. 0" 0]
  have "list_ex (\<lambda>c. code c = ''10000'') (preGeneratedCodes ?h) \<longrightarrow>
          attemptsExhausted (preGeneratedCodes ?h) (\<lambda>i. 0) 0"
    by (simp add: getNextCode_no_active [OF na] generateEmergencyCode_def Let_def na c)
  with held have "attemptsExhausted (preGeneratedCodes ?h) (\<lambda>i. 0) 0" by blast
  with g untouched fe held show ?thesis by simp
qed

subsection \<open>\<open>trimCodeList\<close>\<close>

lemma trim_sorted_split:
  assumes "sorted (map f ys)" "r \<in> set (take n ys)" "d \<in> set (drop n ys)"
  shows "f r \<le> f d"
proof -
  have "sorted (map f (take n ys) @ map f (drop n ys))"
    using assms(1) by (simp flip: map_append)
  with assms(2,3) show ?thesis by (auto simp: sorted_append)
qed

text \<open>The overfull example pool loses its first record, the one that expires first.\<close>

lemma overfull_explicit:
  "overfullPool =
     map (\<lambda>i. \<lparr>code = ''45789'', generated = i * 60000, expires = 3600000 + i * 60000,
               status = ''active'', uses = 0, lastUsed = None\<rparr>)
       [0, 1, 2, 3, 4, 5, 6, 7, 8, 9, 10, 11, 12, 13, 14, 15, 16, 17, 18, 19, 20]"
  by (simp add: overfullPool_def upto.simps)

lemma overfull_trim:
  "preGeneratedCodes (trimCodeList (withCodes overfullPool)) = rev (tl overfullPool)"
  by (simp add: trimCodeList_def withCodes_def constructor_def overfull_explicit)

lemma overfull_dropped:
  "mset (preGeneratedCodes (withCodes overfullPool)) -
     mset (preGeneratedCodes (trimCodeList (withCodes overfullPool))) = {#hd overfullPool#}"
proof -
  have "overfullPool = hd overfullPool # tl overfullPool"
    by (simp add: overfull_explicit)
  then have m: "mset overfullPool = add_mset (hd overfullPool) (mset (tl overfullPool))"
    by (metis mset.simps(2))
  have p: "preGeneratedCodes (withCodes overfullPool) = overfullPool"
    by (simp add: withCodes_def)
  show ?thesis unfolding overfull_trim p by (subst m) simp
qed

text \<open>
  C6. After \<open>trimCodeList\<close> the pool holds at most \<open>maxCodes\<close> records, all of them
  records of the pool before. When the pool was longer than \<open>maxCodes\<close>, exactly
  \<open>maxCodes\<close> records are kept and every record dropped expires no later than every
  record kept: the records with the latest \<open>expires\<close> stay.
\<close>

theorem trimCodeList_keeps_latest:
  "length (preGeneratedCodes (trimCodeList s)) \<le> maxCodes s \<and>
   mset (preGeneratedCodes (trimCodeList s)) \<subseteq># mset (preGeneratedCodes s) \<and>
   (length (preGeneratedCodes s) > maxCodes s \<longrightarrow>
      length (preGeneratedCodes (trimCodeList s)) = maxCodes s \<and>
      (\<forall>d \<in># mset (preGeneratedCodes s) - mset (preGeneratedCodes (trimCodeList s)).
         \<forall>r \<in> set (preGeneratedCodes (trimCodeList s)). expires d \<le> expires r))"
proof (cases "length (preGeneratedCodes s) > maxCodes s")
  case False
  then show ?thesis by (simp add: trimCodeList_def)
next
  case True
  let ?n = "maxCodes s"
  let ?ys = "sort_key (\<lambda>c. - expires c) (preGeneratedCodes s)"
  have t: "preGeneratedCodes (trimCodeList s) = take ?n ?ys"
    using True by (simp add: trimCodeList_def)
  have split: "mset (preGeneratedCodes s) = mset (take ?n ?ys) + mset (drop ?n ?ys)"
    by (metis append_take_drop_id mset_append mset_sort)
  then have dropped: "mset (preGeneratedCodes s) - mset (take ?n ?ys) = mset (drop ?n ?ys)"
    by simp
  have len: "length (take ?n ?ys) = ?n" using True by simp
  have sub: "mset (take ?n ?ys) \<subseteq># mset (preGeneratedCodes s)"
    using split by simp
  have older: "expires d \<le> expires r"
    if "d \<in> set (drop ?n ?ys)" "r \<in> set (take ?n ?ys)" for d r
    using trim_sorted_split [of "\<lambda>c. - expires c" ?ys r ?n d] that by simp
  show ?thesis
    unfolding t dropped using len sub older by simp
qed

theorem trimCodeList_keeps_latest_witness:
  "length (preGeneratedCodes (withCodes overfullPool)) > maxCodes (withCodes overfullPool) \<and>
   length (preGeneratedCodes (trimCodeList (withCodes overfullPool))) = 20 \<and>
   hd overfullPool \<in># mset (preGeneratedCodes (withCodes overfullPool)) -
     mset (preGeneratedCodes (trimCodeList (withCodes overfullPool))) \<and>
   last overfullPool \<in> set (preGeneratedCodes (trimCodeList (withCodes overfullPool))) \<and>
   expires (hd overfullPool) \<le> expires (last overfullPool)"
proof -
  let ?s = "withCodes overfullPool"
  have h: "length (preGeneratedCodes ?s) > maxCodes ?s"
    by (simp add: withCodes_def overfullPool_def constructor_def)
  have m: "maxCodes ?s = 20"
    by (simp add: withCodes_def constructor_def)
  have d: "hd overfullPool \<in># mset (preGeneratedCodes ?s) - mset (preGeneratedCodes (trimCodeList ?s))"
    by (simp add: overfull_dropped)
  have r: "last overfullPool \<in> set (preGeneratedCodes (trimCodeList ?s))"
    unfolding overfull_trim by (simp add: overfull_explicit)
  from trimCodeList_keeps_latest [of ?s] h
  have "length (preGeneratedCodes (trimCodeList ?s)) = maxCodes ?s"
    and "\<forall>d \<in># mset (preGeneratedCodes ?s) - mset (preGeneratedCodes (trimCodeList ?s)).
         \<forall>r \<in> set (preGeneratedCodes (trimCodeList ?s)). expires d \<le> expires r"
    by blast+
  with d r h m show ?thesis by auto
qed

subsection \<open>Export, then import\<close>

lemma code_of_json_to_json: "code_of_json (code_to_json c) = Some c"
proof (cases "lastUsed c")
  case None
  then have "code_of_json (code_to_json c) =
      (if code_to_json c = code_to_json c then Some c else None)"
    by (simp add: code_of_json_def code_to_json_def)
  then show ?thesis by simp
next
  case (Some l)
  then have "code_of_json (code_to_json c) =
      (if code_to_json c = code_to_json c then Some c else None)"
    by (simp add: code_of_json_def code_to_json_def)
  then show ?thesis by simp
qed

text \<open>\<open>code_of_json\<close> accepts nothing but the JSON of a record.\<close>

lemma code_of_json_exact: "code_of_json j = Some c \<Longrightarrow> j = code_to_json c"
  by (auto simp: code_of_json_def Let_def split: json.splits option.splits if_splits)

lemma those_code_of_json: "those (map (code_of_json \<circ> code_to_json) cs) = Some cs"
  by (induction cs) (simp_all add: code_of_json_to_json)

lemma exported_elements:
  "\<not> list_ex (\<lambda>x. x = JNull) (map code_to_json cs)"
  "filter (\<lambda>x. \<not> droppedElement x) (map code_to_json cs) = map code_to_json cs"
  by (induction cs) (simp_all add: code_to_json_def)

text \<open>An array with an element \<open>null\<close>: the failure of the \<open>catch\<close>, the pool lost.\<close>

lemma importCodes_null_element:
  "importCodes (Some (JObj [(''codes'', JArr [code_to_json c, JNull])])) now s =
     (None, Inl Thrown)"
  by (simp add: importCodes_def)

text \<open>
  C8. For every pool, export time \<open>t\<close> and import time \<open>now\<close>, importing what
  \<open>exportCodes\<close> returned for the manager \<open>s\<close>, into that manager or any other manager
  \<open>s'\<close>, succeeds and reports the length of the exported list. The pool of \<open>s'\<close> is
  replaced by the pool that one \<open>cleanExpiredCodes\<close> pass at \<open>now\<close> makes of the pool of
  \<open>s\<close>: the same records (codes, statuses, uses and all other fields) in the same
  order, whatever \<open>s'\<close> held before. A further \<open>cleanExpiredCodes\<close> pass at that time
  removes nothing.
\<close>

theorem import_export_roundtrip:
  "importCodes (Some (exportCodes t s)) now s' =
     (Some (s'\<lparr>preGeneratedCodes := filter (keepCode now) (preGeneratedCodes s)\<rparr>),
      Inr (length (preGeneratedCodes s))) \<and>
   s'\<lparr>preGeneratedCodes := filter (keepCode now) (preGeneratedCodes s)\<rparr> =
     snd (cleanExpiredCodes now (s'\<lparr>preGeneratedCodes := preGeneratedCodes s\<rparr>)) \<and>
   importCodes (Some (exportCodes t s)) now s =
     (Some (snd (cleanExpiredCodes now s)), Inr (length (preGeneratedCodes s))) \<and>
   cleanExpiredCodes now (s'\<lparr>preGeneratedCodes := filter (keepCode now) (preGeneratedCodes s)\<rparr>) =
     (0, s'\<lparr>preGeneratedCodes := filter (keepCode now) (preGeneratedCodes s)\<rparr>)"
  by (simp add: importCodes_def exportCodes_def those_code_of_json exported_elements
        cleanExpiredCodes_def Let_def)

subsection \<open>Decimal strings\<close>

lemma digit_value: "d < 10 \<Longrightarrow> of_char (digit d) = (48 + d :: nat)"
proof -
  assume "d < 10"
  then have "d = 0 \<or> d = 1 \<or> d = 2 \<or> d = 3 \<or> d = 4 \<or> d = 5 \<or> d = 6 \<or> d = 7 \<or> d = 8 \<or> d = 9"
    by arith
  then show ?thesis by (elim disjE) (simp_all add: digit_def)
qed

lemma digit_inj:
  assumes "d < 10" "e < 10" "digit d = digit e"
  shows "d = e"
proof -
  have "48 + d = (of_char (digit d) :: nat)" using assms(1) by (simp only: digit_value)
  also have "\<dots> = of_char (digit e)" by (simp only: assms(3))
  also have "\<dots> = 48 + e" using assms(2) by (simp only: digit_value)
  finally show ?thesis by simp
qed

lemma toString_nonempty: "toString n \<noteq> []" "[] \<noteq> toString n"
  by (subst toString.simps, simp)+

text \<open>Different numbers have different decimal strings.\<close>

lemma toString_inj: "toString n = toString m \<Longrightarrow> n = m"
proof (induction n arbitrary: m rule: toString.induct)
  case (1 n)
  show ?case
  proof (cases "n < 10")
    case small_n: True
    then have n: "toString n = [digit n]" by (subst toString.simps) simp
    show ?thesis
    proof (cases "m < 10")
      case True
      then have "toString m = [digit m]" by (subst toString.simps) simp
      with n "1.prems" small_n True show ?thesis by (simp add: digit_inj)
    next
      case False
      then have "toString m = toString (m div 10) @ [digit (m mod 10)]"
        by (subst toString.simps) simp
      with n "1.prems" show ?thesis by (simp add: toString_nonempty)
    qed
  next
    case big_n: False
    then have n: "toString n = toString (n div 10) @ [digit (n mod 10)]"
      by (subst toString.simps) simp
    show ?thesis
    proof (cases "m < 10")
      case True
      then have "toString m = [digit m]" by (subst toString.simps) simp
      with n "1.prems" show ?thesis by (simp add: toString_nonempty)
    next
      case False
      then have "toString m = toString (m div 10) @ [digit (m mod 10)]"
        by (subst toString.simps) simp
      with n "1.prems" have eq: "toString (n div 10) = toString (m div 10)"
        and d: "digit (n mod 10) = digit (m mod 10)" by simp_all
      from "1.IH" [OF big_n eq] have "n div 10 = m div 10" .
      moreover from d have "n mod 10 = m mod 10" by (simp add: digit_inj)
      ultimately show ?thesis by (metis div_mult_mod_eq)
    qed
  qed
qed

subsection \<open>\<open>generateNewCodes(3)\<close> on an empty pool\<close>

lemma generateUniqueCode_empty:
  "preGeneratedCodes s = [] \<Longrightarrow>
     generateUniqueCode s rnd pos = (toString (draw rnd pos), Suc pos)"
  by (simp add: generateUniqueCode_def generateUniqueCode_loop.simps)

lemma newCodes_of_empty_pool:
  assumes "preGeneratedCodes s = []"
  shows "fst (generateNewCodes 3 now s rnd pos) =
           [newCode s now 0 (toString (draw rnd pos)),
            newCode s now 1 (toString (draw rnd (pos + 1))),
            newCode s now 2 (toString (draw rnd (pos + 2)))]"
    and "snd (snd (generateNewCodes 3 now s rnd pos)) = pos + 3"
  using assms
  by (simp_all add: generateNewCodes_def Let_def generateNewCodes_loop.simps
        generateUniqueCode_empty numeral_2_eq_2)

text \<open>
  What holds of the claim for every sequence of draws: three records, each with
  status \<open>active\<close> and \<open>uses = 0\<close>, after exactly three draws.
\<close>

lemma three_active_unused:
  assumes "preGeneratedCodes s = []"
  shows "length (fst (generateNewCodes 3 now s rnd pos)) = 3 \<and>
         list_all (\<lambda>c. status c = ''active'' \<and> uses c = 0)
           (fst (generateNewCodes 3 now s rnd pos)) \<and>
         snd (snd (generateNewCodes 3 now s rnd pos)) = pos + 3"
  unfolding newCodes_of_empty_pool [OF assms] by (simp add: newCode_def)

lemma empty_pool_not_exhausted: "\<not> attemptsExhausted [] rnd pos"
  by (auto simp: attemptsExhausted_def maxAttempts_def list_all_iff intro: exI [of _ 0])

text \<open>
  C3. The claim wants three pairwise distinct codes for every sequence of draws. On
  the empty pool, with draws that give 7, 7 and 8, \<open>generateNewCodes(3)\<close> returns the
  codes 10007, 10007 and 10008 after exactly three draws: no attempt was repeated and
  the attempts were not exhausted. Each candidate is compared with
  \<open>this.preGeneratedCodes\<close> only, which stays empty until the whole batch is pushed,
  so the second 10007 is accepted although \<open>generateUniqueCode\<close> is there to give a
  unique code.
\<close>

theorem generateNewCodes_batch_duplicate:
  "preGeneratedCodes constructor = [] \<and>
   map code (fst (generateNewCodes 3 1000 constructor draws778 0)) =
     [''10007'', ''10007'', ''10008''] \<and>
   \<not> distinct (map code (fst (generateNewCodes 3 1000 constructor draws778 0))) \<and>
   list_all (\<lambda>c. status c = ''active'' \<and> uses c = 0)
     (fst (generateNewCodes 3 1000 constructor draws778 0)) \<and>
   snd (snd (generateNewCodes 3 1000 constructor draws778 0)) = 3 \<and>
   \<not> attemptsExhausted (preGeneratedCodes constructor) draws778 0"
proof -
  have e: "preGeneratedCodes constructor = []" by (simp add: constructor_def)
  have "\<not> attemptsExhausted (preGeneratedCodes constructor) draws778 0"
    unfolding e by (rule empty_pool_not_exhausted)
  then show ?thesis
    unfolding newCodes_of_empty_pool [OF e]
    by (simp add: e newCode_def draw_def draws778_def toString.simps digit_def)
qed

subsection \<open>\<open>rotateActiveCodes\<close>\<close>




















end
